theory Spec2Isabelle
  imports Main "HOL-Library.Word" "HOL-Library.Sublist"
begin

section \<open>The script assembler of core\_read.cpp\<close>

text \<open>
  \<^verbatim>\<open>ParseScript\<close> turns a whitespace-separated textual script into the bytes of a
  \<^verbatim>\<open>CScript\<close>. The model follows the function line by line: the table of opcode names,
  the split into words, the four encoding rules in their order, and the bookkeeping
  of push sizes after each word. A \<^verbatim>\<open>std::runtime_error\<close> is the value
  \<open>Inl (runtime_error msg)\<close>.
\<close>

subsection \<open>Bytes, opcodes, errors\<close>

type_synonym byte = "8 word"

text \<open>
  Modelled from the spec: the enum \<^verbatim>\<open>opcodetype\<close> of script/script.h is not part of the
  sources at hand. The spec fixes the direct-length pushes as 1 to 75, so the first
  multi-byte push opcode is 76, followed by the two further variable-length pushes.
\<close>

definition OP_PUSHDATA1 :: byte where
  "OP_PUSHDATA1 = 76"

definition OP_PUSHDATA2 :: byte where
  "OP_PUSHDATA2 = 77"

definition OP_PUSHDATA4 :: byte where
  "OP_PUSHDATA4 = 78"

text \<open>
  An exception thrown by \<^verbatim>\<open>ParseScript\<close> carries only its message, and the message of a
  \<^verbatim>\<open>std::runtime_error\<close> is read through \<^verbatim>\<open>what()\<close>, a C string: it ends before the
  first NUL character of the string the exception was made from. \<open>runtime_error msg\<close>
  holds the message as \<^verbatim>\<open>what()\<close> gives it, and \<open>c_str\<close> is the cut at the first NUL. A
  read before or behind the buffer has no defined result in C++; the model makes it a value
  of its own, \<open>out_of_bounds\<close>, and the development shows that no call reaches it.
\<close>

datatype error = runtime_error string | out_of_bounds

definition c_str :: "string \<Rightarrow> string" where
  "c_str str = takeWhile (\<lambda>c. c \<noteq> CHR 0x00) str"

subsection \<open>String helpers of boost and the standard library\<close>

definition starts_with :: "string \<Rightarrow> string \<Rightarrow> bool" where
  "starts_with w p = (take (length p) w = p)"

definition ends_with :: "string \<Rightarrow> string \<Rightarrow> bool" where
  "ends_with w p = (length p \<le> length w \<and> drop (length w - length p) w = p)"

text \<open>\<^verbatim>\<open>boost::algorithm::is_digit()\<close> in the classic locale: the ten ASCII digits.\<close>

definition is_digit :: "char \<Rightarrow> bool" where
  "is_digit c = (48 \<le> (of_char c :: nat) \<and> (of_char c :: nat) \<le> 57)"

text \<open>\<^verbatim>\<open>boost::algorithm::is_any_of(" \t\n")\<close>\<close>

definition is_separator :: "char \<Rightarrow> bool" where
  "is_separator c = (c = CHR '' '' \<or> c = CHR 0x09 \<or> c = CHR 0x0A)"

text \<open>
  \<^verbatim>\<open>boost::algorithm::split\<close> with \<^verbatim>\<open>token_compress_on\<close>: the pieces between maximal runs
  of separators. A separator at either end of the input leaves an empty piece there, and
  the empty input gives one empty piece.
\<close>

fun split_compress :: "(char \<Rightarrow> bool) \<Rightarrow> string \<Rightarrow> string list" where
  "split_compress P [] = [[]]"
| "split_compress P (c # cs) =
     (if P c then
        (case cs of
           d # ds \<Rightarrow> if P d then split_compress P cs else [] # split_compress P cs
         | [] \<Rightarrow> [] # split_compress P cs)
      else
        (case split_compress P cs of
           w # ws \<Rightarrow> (c # w) # ws
         | [] \<Rightarrow> [[c]]))"

text \<open>
  \<^verbatim>\<open>boost::algorithm::replace_first\<close>: the first occurrence of the pattern, wherever it
  stands in the string, is replaced; a string without the pattern is unchanged.
\<close>

fun replace_first :: "string \<Rightarrow> string \<Rightarrow> string \<Rightarrow> string" where
  "replace_first [] pat rep = []"
| "replace_first (c # cs) pat rep =
     (if starts_with (c # cs) pat then rep @ drop (length pat) (c # cs)
      else c # replace_first cs pat rep)"

text \<open>
  \<^verbatim>\<open>boost::lexical_cast<std::string>\<close> of a \<^verbatim>\<open>size_t\<close>: the decimal digits, most
  significant first.
\<close>

definition digit_char :: "nat \<Rightarrow> char" where
  "digit_char d = ''0123456789'' ! d"

function lexical_cast :: "nat \<Rightarrow> string" where
  "lexical_cast n =
     (if n < 10 then [digit_char n] else lexical_cast (n div 10) @ [digit_char (n mod 10)])"
  by pat_completeness auto
termination
  by (relation "measure (\<lambda>n. n)") auto

subsection \<open>Collaborators outside the file\<close>

text \<open>
  Modelled from the spec: \<^verbatim>\<open>HexDigit\<close>, \<^verbatim>\<open>IsHex\<close> and \<^verbatim>\<open>ParseHex\<close> of utilstrencodings
  are not part of the sources at hand. \<^verbatim>\<open>IsHex\<close> accepts the strings of an even number of
  hex digits; the note in \<^verbatim>\<open>ParseHashStr\<close> says that it rejects the empty string.
  \<^verbatim>\<open>ParseHex\<close> decodes two digits to a byte, the high nibble first, and stops at the
  first character that is no hex digit.
\<close>

definition HexDigit :: "char \<Rightarrow> byte option" where
  "HexDigit c =
     (let n = (of_char c :: nat) in
      if 48 \<le> n \<and> n \<le> 57 then Some (of_nat (n - 48))
      else if 97 \<le> n \<and> n \<le> 102 then Some (of_nat (n - 87))
      else if 65 \<le> n \<and> n \<le> 70 then Some (of_nat (n - 55))
      else None)"

definition IsHex :: "string \<Rightarrow> bool" where
  "IsHex str = ((\<forall>c \<in> set str. HexDigit c \<noteq> None) \<and> 0 < length str \<and> length str mod 2 = 0)"

fun ParseHex :: "string \<Rightarrow> byte list" where
  "ParseHex (a # b # cs) =
     (case HexDigit a of
        None \<Rightarrow> []
      | Some hi \<Rightarrow>
          (case HexDigit b of
             None \<Rightarrow> []
           | Some lo \<Rightarrow> (16 * hi + lo) # ParseHex cs))"
| "ParseHex cs = []"

text \<open>
  Modelled from the spec: \<^verbatim>\<open>atoi64\<close> of utilstrencodings is not part of the sources at
  hand. It parses a signed 64-bit integer in base ten as \<^verbatim>\<open>strtoll\<close> does: an optional
  minus sign, then the leading digits, the value held to the range of \<^verbatim>\<open>int64_t\<close>.
  Without a digit the value is 0.
\<close>

definition digits_value :: "string \<Rightarrow> nat" where
  "digits_value ds = foldl (\<lambda>a c. 10 * a + ((of_char c :: nat) - 48)) 0 (takeWhile is_digit ds)"

definition atoi64 :: "string \<Rightarrow> int" where
  "atoi64 str =
     (let v = (if starts_with str ''-'' then - int (digits_value (tl str))
               else int (digits_value str))
      in max (- (2 ^ 63)) (min (2 ^ 63 - 1) v))"

text \<open>
  Modelled from the spec: \<^verbatim>\<open>CScript::operator<<\<close> for a byte vector (script/script.h) is
  not part of the sources at hand. It is the generic data-push encoder of the spec: a
  single length byte for at most 75 bytes, else \<^verbatim>\<open>OP_PUSHDATA1\<close> and one length byte up
  to 255 bytes, \<^verbatim>\<open>OP_PUSHDATA2\<close> and two little-endian length bytes up to 65535 bytes,
  \<^verbatim>\<open>OP_PUSHDATA4\<close> and four little-endian length bytes beyond; then the bytes themselves.
\<close>

definition WriteLE16 :: "nat \<Rightarrow> byte list" where
  "WriteLE16 n = [of_nat (n mod 256), of_nat (n div 256 mod 256)]"

definition WriteLE32 :: "nat \<Rightarrow> byte list" where
  "WriteLE32 n =
     [of_nat (n mod 256), of_nat (n div 256 mod 256),
      of_nat (n div 65536 mod 256), of_nat (n div 16777216 mod 256)]"

definition push_prefix :: "nat \<Rightarrow> byte list" where
  "push_prefix n =
     (if n < unat OP_PUSHDATA1 then [of_nat n]
      else if n \<le> 255 then [OP_PUSHDATA1, of_nat n]
      else if n \<le> 65535 then OP_PUSHDATA2 # WriteLE16 n
      else OP_PUSHDATA4 # WriteLE32 n)"

definition push_data :: "byte list \<Rightarrow> byte list" where
  "push_data b = push_prefix (length b) @ b"

text \<open>
  Modelled from the spec: \<^verbatim>\<open>CScript::operator<<\<close> for an \<^verbatim>\<open>int64_t\<close> and
  \<^verbatim>\<open>CScriptNum::serialize\<close> (script/script.h) are not part of the sources at hand. It is
  the minimal-integer push encoder of the spec: zero is the push of the empty string, the
  numbers -1 and 1 to 16 have an opcode of their own (80 plus the number), and every other
  number is pushed in sign-magnitude form, least significant byte first, the sign in the
  high bit of the last byte.
\<close>

function magnitude_bytes :: "nat \<Rightarrow> byte list" where
  "magnitude_bytes n = (if n = 0 then [] else of_nat (n mod 256) # magnitude_bytes (n div 256))"
  by pat_completeness auto
termination
  by (relation "measure (\<lambda>n. n)") auto

definition serialize :: "int \<Rightarrow> byte list" where
  "serialize v =
     (if v = 0 then []
      else
        let neg = (v < 0);
            bs = magnitude_bytes (nat \<bar>v\<bar>)
        in if bit (last bs) 7 then bs @ [if neg then 128 else 0]
           else if neg then butlast bs @ [or (last bs) 128]
           else bs)"

definition push_int64 :: "int \<Rightarrow> byte list" where
  "push_int64 n =
     (if n = - 1 \<or> (1 \<le> n \<and> n \<le> 16) then [of_int (n + 80)]
      else if n = 0 then [0]
      else push_data (serialize n))"

text \<open>
  Modelled from the spec: \<^verbatim>\<open>ReadLE16\<close> and \<^verbatim>\<open>ReadLE32\<close> (crypto/common.h) are not
  part of the sources at hand. They read two and four bytes at a pointer as an unsigned
  little-endian integer; \<open>deref\<close> is the read of the one byte at the pointer. The pointer
  of \<^verbatim>\<open>ParseScript\<close> is \<^verbatim>\<open>&result[script_size]\<close>, here the buffer from that index
  on. A read behind the end of the buffer is \<open>None\<close>.
\<close>

fun deref :: "byte list \<Rightarrow> nat option" where
  "deref (b0 # bs) = Some (unat b0)"
| "deref bs = None"

fun ReadLE16 :: "byte list \<Rightarrow> nat option" where
  "ReadLE16 (b0 # b1 # bs) = Some (unat b0 + 256 * unat b1)"
| "ReadLE16 bs = None"

fun ReadLE32 :: "byte list \<Rightarrow> nat option" where
  "ReadLE32 (b0 # b1 # b2 # b3 # bs) =
     Some (unat b0 + 256 * unat b1 + 65536 * unat b2 + 16777216 * unat b3)"
| "ReadLE32 bs = None"

subsection \<open>The table of opcode names\<close>

text \<open>
  \<^verbatim>\<open>GetOpName\<close> (script/script.cpp) and the enum value \<^verbatim>\<open>FIRST_UNDEFINED_OP_VALUE\<close>
  (script/script.h) are not part of the sources at hand and the spec does not list them,
  so both are parameters of the model: \<open>GetOpName\<close> is any function from opcodes to
  names, \<open>FIRST_UNDEFINED_OP_VALUE\<close> is any opcode.

  The static \<^verbatim>\<open>mapOpNames\<close> is filled on the first call by the loop over
  \<^verbatim>\<open>op = 0 .. FIRST_UNDEFINED_OP_VALUE - 1\<close>; \<open>add_op_name\<close> is the body of that loop.
  A later assignment to a key that is already present overwrites the entry, as
  \<^verbatim>\<open>std::map::operator[]\<close> does.
\<close>

definition add_op_name ::
  "(byte \<Rightarrow> string) \<Rightarrow> (string \<rightharpoonup> byte) \<Rightarrow> byte \<Rightarrow> (string \<rightharpoonup> byte)" where
  "add_op_name GetOpName m op =
     (if op < OP_PUSHDATA1 then m
      else
        let name = GetOpName op in
        if name = ''OP_UNKNOWN'' then m
        else
          let m1 = m(name \<mapsto> op);
              strName = replace_first name ''OP_'' []
          in m1(strName \<mapsto> op))"

definition mapOpNames :: "(byte \<Rightarrow> string) \<Rightarrow> byte \<Rightarrow> (string \<rightharpoonup> byte)" where
  "mapOpNames GetOpName FIRST_UNDEFINED_OP_VALUE =
     foldl (add_op_name GetOpName) Map.empty (map of_nat [0 ..< unat FIRST_UNDEFINED_OP_VALUE])"

subsection \<open>One word of the input\<close>

definition hex_error :: error where
  "hex_error = runtime_error
     (''Hex numbers expected to be formatted '' @ ''in full-byte chunks (ex: 0x00 '' @
      ''instead of 0x0)'')"

text \<open>
  Line 117 appends the input, a \<^verbatim>\<open>std::string\<close> that may hold NUL characters, to the
  text of the message. The two other messages are made of fixed text and of decimal digits
  and hold no NUL, so that \<^verbatim>\<open>what()\<close> gives them whole.
\<close>

definition parse_error :: "string \<Rightarrow> error" where
  "parse_error s = runtime_error (c_str (''Error parsing script: '' @ s))"

definition push_size_error :: "nat \<Rightarrow> nat \<Rightarrow> error" where
  "push_size_error push_size size_change = runtime_error
     (''Wrong number of bytes being pushed. Expected:'' @ lexical_cast push_size @
      '' Pushed:'' @ lexical_cast size_change)"

text \<open>The test of the first rule (lines 71 to 74): the word is a decimal number.\<close>

definition is_number :: "string \<Rightarrow> bool" where
  "is_number w = (list_all is_digit w \<or> (starts_with w ''-'' \<and> list_all is_digit (drop 1 w)))"

text \<open>The test of the second rule (lines 82 and 83).\<close>

definition is_hex_word :: "string \<Rightarrow> bool" where
  "is_hex_word w = (starts_with w ''0x'' \<and> drop 2 w \<noteq> [])"

text \<open>The test of the third rule (lines 99 and 100).\<close>

definition is_quoted :: "string \<Rightarrow> bool" where
  "is_quoted w = (2 \<le> length w \<and> starts_with w [CHR 0x27] \<and> ends_with w [CHR 0x27])"

text \<open>
  Lines 70 to 117: the bytes that a word appends to \<^verbatim>\<open>result\<close>, by the first rule that
  applies, or the exception. Every rule appends at the end of the buffer and none reads it,
  so the bytes do not depend on the buffer.
\<close>

definition word_bytes :: "(string \<rightharpoonup> byte) \<Rightarrow> string \<Rightarrow> string \<Rightarrow> error + byte list" where
  "word_bytes opNames s w =
     (if is_number w then Inr (push_int64 (atoi64 w))
      else if is_hex_word w then
        (if \<not> IsHex (drop 2 w) then Inl hex_error
         else Inr (ParseHex (drop 2 w)))
      else if is_quoted w then
        Inr (push_data (map (\<lambda>c. of_nat (of_char c)) (butlast (drop 1 w))))
      else
        (case opNames w of
           Some op \<Rightarrow> Inr [op]
         | None \<Rightarrow> Inl (parse_error s)))"

text \<open>
  The variables that live across the iterations of the loop: the buffer and the two
  counters. \<^verbatim>\<open>push_size\<close> and \<^verbatim>\<open>script_size\<close> are set anew in every iteration.
\<close>

record parse_state =
  result :: "byte list"
  next_push_size :: nat
  push_data_size :: nat

text \<open>
  Lines 133 to 148: the bytes just appended are the length field of a \<^verbatim>\<open>PUSHDATA\<close>
  opcode and are read back from \<^verbatim>\<open>offset = &result[script_size]\<close>, the buffer from
  \<^verbatim>\<open>script_size\<close> on. For a width other than 1, 2 and 4 nothing is assigned, and
  \<^verbatim>\<open>next_push_size\<close> keeps the 0 of line 68.
\<close>

definition read_push_size :: "nat \<Rightarrow> byte list \<Rightarrow> nat option" where
  "read_push_size width offset =
     (if width = 1 then deref offset
      else if width = 2 then ReadLE16 offset
      else if width = 4 then ReadLE32 offset
      else Some 0)"

definition read_length_field :: "nat \<Rightarrow> parse_state \<Rightarrow> error + parse_state" where
  "read_length_field script_size st =
     (case read_push_size (push_data_size st) (drop script_size (result st)) of
        None \<Rightarrow> Inl out_of_bounds
      | Some n \<Rightarrow> Inr (st\<lparr>next_push_size := n, push_data_size := 0\<rparr>))"

text \<open>Lines 153 to 176: a single new byte is looked at as an opcode.\<close>

definition note_opcode :: "parse_state \<Rightarrow> parse_state" where
  "note_opcode st =
     (let op = last (result st) in
      if op < OP_PUSHDATA1 then st\<lparr>next_push_size := unat op\<rparr>
      else if op = OP_PUSHDATA1 then st\<lparr>next_push_size := 1, push_data_size := 1\<rparr>
      else if op = OP_PUSHDATA2 then st\<lparr>next_push_size := 2, push_data_size := 2\<rparr>
      else if op = OP_PUSHDATA4 then st\<lparr>next_push_size := 4, push_data_size := 4\<rparr>
      else st)"

text \<open>
  The body of the loop for a word that is not empty (lines 63 to 176), statement by
  statement: the sizes are noted and \<^verbatim>\<open>next_push_size\<close> is set to 0, the word is encoded,
  the number of new bytes is compared with the pending push, the length field is read back,
  the single new byte is looked at.
\<close>

definition process_word ::
  "(string \<rightharpoonup> byte) \<Rightarrow> string \<Rightarrow> parse_state \<Rightarrow> string \<Rightarrow> error + parse_state" where
  "process_word opNames s st w =
     (let script_size = length (result st);
          push_size = next_push_size st;
          st0 = st\<lparr>next_push_size := 0\<rparr>
      in case word_bytes opNames s w of
           Inl e \<Rightarrow> Inl e
         | Inr bs \<Rightarrow>
             let st1 = st0\<lparr>result := result st0 @ bs\<rparr>;
                 size_change = length (result st1) - script_size
             in if push_size \<noteq> 0 \<and> size_change \<noteq> push_size
                then Inl (push_size_error push_size size_change)
                else
                  (case (if push_size \<noteq> 0 \<and> push_data_size st1 \<noteq> 0
                         then read_length_field script_size st1 else Inr st1) of
                     Inl e \<Rightarrow> Inl e
                   | Inr st2 \<Rightarrow>
                       Inr (if push_size = 0 \<and> size_change = 1 then note_opcode st2
                            else st2)))"

text \<open>The loop over the words; an empty word is skipped (lines 56 to 61).\<close>

fun ParseWords ::
  "(string \<rightharpoonup> byte) \<Rightarrow> string \<Rightarrow> string list \<Rightarrow> parse_state \<Rightarrow> error + parse_state" where
  "ParseWords opNames s [] st = Inr st"
| "ParseWords opNames s (w # ws) st =
     (if w = [] then ParseWords opNames s ws st
      else
        (case process_word opNames s st w of
           Inl e \<Rightarrow> Inl e
         | Inr st' \<Rightarrow> ParseWords opNames s ws st'))"

definition initial_state :: parse_state where
  "initial_state = \<lparr>result = [], next_push_size = 0, push_data_size = 0\<rparr>"

definition ParseScript :: "(byte \<Rightarrow> string) \<Rightarrow> byte \<Rightarrow> string \<Rightarrow> error + byte list" where
  "ParseScript GetOpName FIRST_UNDEFINED_OP_VALUE s =
     (let opNames = mapOpNames GetOpName FIRST_UNDEFINED_OP_VALUE;
          words = split_compress is_separator s
      in case ParseWords opNames s words initial_state of
           Inl e \<Rightarrow> Inl e
         | Inr st \<Rightarrow> Inr (result st))"

section \<open>Decoding transactions and blocks from hex\<close>

text \<open>
  The deserializers behind \<^verbatim>\<open>ssData >> tx\<close> and \<^verbatim>\<open>ssBlock >> block\<close> are not part of the
  sources at hand; the model takes one as a parameter. Given the bytes of the stream it
  either throws (\<open>None\<close>) or returns the decoded object and the bytes it has not
  consumed. The functions return the boolean together with the object they have filled.
\<close>

definition DecodeHexTx ::
  "(byte list \<Rightarrow> ('tx \<times> byte list) option) \<Rightarrow> string \<Rightarrow> bool \<times> 'tx option" where
  "DecodeHexTx unserialize strHexTx =
     (if \<not> IsHex strHexTx then (False, None)
      else
        let txData = ParseHex strHexTx in
        case unserialize txData of
          None \<Rightarrow> (False, None)
        | Some (tx, ssData) \<Rightarrow> if ssData \<noteq> [] then (False, Some tx) else (True, Some tx))"

definition DecodeHexBlk ::
  "(byte list \<Rightarrow> ('blk \<times> byte list) option) \<Rightarrow> string \<Rightarrow> bool \<times> 'blk option" where
  "DecodeHexBlk unserialize strHexBlk =
     (if \<not> IsHex strHexBlk then (False, None)
      else
        let blockData = ParseHex strHexBlk in
        case unserialize blockData of
          None \<Rightarrow> (False, None)
        | Some (block, ssBlock) \<Rightarrow> (True, Some block))"

section \<open>Notions used in the statements\<close>

text \<open>
  The unsigned little-endian integer that a sequence of bytes denotes, as the spec words the
  length field of a \<^verbatim>\<open>PUSHDATA\<close> opcode: the first byte is the least significant one.
\<close>

definition le_value :: "byte list \<Rightarrow> nat" where
  "le_value bs = foldr (\<lambda>b n. unat b + 256 * n) bs 0"

text \<open>
  The relation between the two counters that every iteration of the loop keeps:
  \<^verbatim>\<open>push_data_size\<close> is set only together with \<^verbatim>\<open>next_push_size\<close>, to the same value 1, 2
  or 4.
\<close>

definition push_state_ok :: "parse_state \<Rightarrow> bool" where
  "push_state_ok st =
     (push_data_size st = 0 \<or>
      (push_data_size st = next_push_size st \<and>
       (push_data_size st = 1 \<or> push_data_size st = 2 \<or> push_data_size st = 4)))"


section \<open>An instance of the parameters\<close>

text \<open>
  A small table of names for the closed examples: the names that \<^verbatim>\<open>GetOpName\<close> gives to
  a few opcodes of the protocol, and \<^verbatim>\<open>OP_UNKNOWN\<close> for every other value.
\<close>

definition example_GetOpName :: "byte \<Rightarrow> string" where
  "example_GetOpName op =
     (if op = 76 then ''OP_PUSHDATA1''
      else if op = 77 then ''OP_PUSHDATA2''
      else if op = 78 then ''OP_PUSHDATA4''
      else if op = 79 then ''-1''
      else if op = 81 then ''1''
      else if op = 118 then ''OP_DUP''
      else if op = 147 then ''OP_ADD''
      else if op = 172 then ''OP_CHECKSIG''
      else ''OP_UNKNOWN'')"

definition example_FIRST_UNDEFINED_OP_VALUE :: byte where
  "example_FIRST_UNDEFINED_OP_VALUE = 186"



text \<open>
  A deserializer for the closed examples: the object is the first byte of the stream, and
  an empty stream makes it throw.
\<close>

definition example_unserialize :: "byte list \<Rightarrow> (byte \<times> byte list) option" where
  "example_unserialize bs = (case bs of [] \<Rightarrow> None | b # rest \<Rightarrow> Some (b, rest))"

section \<open>Properties of the helpers\<close>

declare lexical_cast.simps [simp del]
declare magnitude_bytes.simps [simp del]

lemma split_compress_single:
  "\<forall>c \<in> set w. \<not> P c \<Longrightarrow> split_compress P w = [w]"
  by (induction w) auto

lemma starts_with_Cons [simp]:
  "starts_with w (p # ps) = (case w of [] \<Rightarrow> False | c # cs \<Rightarrow> c = p \<and> starts_with cs ps)"
  by (cases w) (auto simp: starts_with_def)

lemma starts_with_Nil [simp]: "starts_with w [] = True"
  by (simp add: starts_with_def)

lemma is_digit_simps [simp]:
  "\<not> is_digit (CHR ''x'')" "\<not> is_digit (CHR 0x27)" "\<not> is_digit (CHR ''-'')"
  by (simp_all add: is_digit_def)

lemma hex_word_not_number:
  "h \<noteq> [] \<Longrightarrow> \<not> is_number (CHR ''0'' # CHR ''x'' # h) \<and> is_hex_word (CHR ''0'' # CHR ''x'' # h)"
  by (simp add: is_number_def is_hex_word_def)

lemma word_bytes_hex [simp]:
  "h \<noteq> [] \<Longrightarrow>
   word_bytes opNames s (CHR ''0'' # CHR ''x'' # h) =
     (if IsHex h then Inr (ParseHex h) else Inl hex_error)"
  using hex_word_not_number [of h] by (simp add: word_bytes_def)


lemma ends_with_single: "ends_with w [c] \<longleftrightarrow> w \<noteq> [] \<and> last w = c"
  by (cases w rule: rev_cases) (auto simp: ends_with_def)




lemma process_word_Inl:
  "word_bytes opNames s w = Inl e \<Longrightarrow> process_word opNames s st w = Inl e"
  by (simp add: process_word_def)

lemma result_note_opcode [simp]: "result (note_opcode st) = result st"
  by (simp add: note_opcode_def Let_def)


lemma process_word_no_push:
  "word_bytes opNames s w = Inr bs \<Longrightarrow> next_push_size st = 0 \<Longrightarrow>
   process_word opNames s st w =
     Inr (if length bs = 1
          then note_opcode \<lparr>result = result st @ bs, next_push_size = 0,
                  push_data_size = push_data_size st\<rparr>
          else \<lparr>result = result st @ bs, next_push_size = 0,
                  push_data_size = push_data_size st\<rparr>)"
  by (cases st) (simp add: process_word_def Let_def)

lemma ParseScript_single_word:
  assumes "w \<noteq> []" and "\<forall>c \<in> set w. \<not> is_separator c"
  shows "ParseScript GetOpName FIRST w =
           word_bytes (mapOpNames GetOpName FIRST) w w"
proof (cases "word_bytes (mapOpNames GetOpName FIRST) w w")
  case (Inl e)
  with assms show ?thesis
    by (simp add: ParseScript_def split_compress_single process_word_Inl)
next
  case (Inr bs)
  with assms show ?thesis
    by (simp add: ParseScript_def split_compress_single process_word_no_push initial_state_def)
qed



lemma IsHex_0a: "IsHex ''0a''" "ParseHex ''0a'' = [10]"
  by (simp_all add: IsHex_def HexDigit_def)


subsection \<open>Numbers and the messages of the errors\<close>

lemma is_number_iff:
  assumes "w \<noteq> []"
  shows "is_number w \<longleftrightarrow>
           list_all is_digit w
         \<or> (\<exists>ds. w = CHR ''-'' # ds \<and> ds \<noteq> [] \<and> list_all is_digit ds)
         \<or> w = ''-''"
  using assms by (cases w) (auto simp: is_number_def)

lemma word_bytes_no_rule:
  "\<not> is_number w \<Longrightarrow> \<not> is_hex_word w \<Longrightarrow> \<not> is_quoted w \<Longrightarrow> opNames w = None \<Longrightarrow>
   word_bytes opNames s w = Inl (parse_error s)"
  by (simp add: word_bytes_def)

lemma digit_char_digit:
  assumes "d < 10"
  shows "is_digit (digit_char d) \<and> (of_char (digit_char d) :: nat) = 48 + d"
proof -
  from assms have "d = 0 \<or> d = 1 \<or> d = 2 \<or> d = 3 \<or> d = 4 \<or> d = 5 \<or> d = 6 \<or> d = 7 \<or>
                   d = 8 \<or> d = 9"
    by arith
  then show ?thesis
    by (elim disjE) (simp_all add: digit_char_def is_digit_def)
qed

lemma lexical_cast_digits: "list_all is_digit (lexical_cast n)"
proof (induction n rule: lexical_cast.induct)
  case (1 n)
  show ?case
  proof (cases "n < 10")
    case True
    then show ?thesis by (subst lexical_cast.simps) (simp add: digit_char_digit)
  next
    case False
    with 1 have "list_all is_digit (lexical_cast (n div 10))" by simp
    moreover have "is_digit (digit_char (n mod 10))" by (simp add: digit_char_digit)
    ultimately show ?thesis using False by (subst lexical_cast.simps) simp
  qed
qed

lemma takeWhile_digits: "list_all is_digit ds \<Longrightarrow> takeWhile is_digit ds = ds"
  by (simp add: list_all_iff)

lemma digits_value_all:
  "list_all is_digit ds \<Longrightarrow>
   digits_value ds = foldl (\<lambda>a c. 10 * a + ((of_char c :: nat) - 48)) 0 ds"
  by (simp add: digits_value_def takeWhile_digits)

lemma digits_value_snoc:
  assumes "list_all is_digit ds" and "is_digit c"
  shows "digits_value (ds @ [c]) = 10 * digits_value ds + ((of_char c :: nat) - 48)"
proof -
  from assms have "list_all is_digit (ds @ [c])" by simp
  then show ?thesis
    by (simp add: digits_value_all assms(1))
qed

lemma digits_value_lexical_cast: "digits_value (lexical_cast n) = n"
proof (induction n rule: lexical_cast.induct)
  case (1 n)
  show ?case
  proof (cases "n < 10")
    case True
    then show ?thesis
      by (subst lexical_cast.simps) (simp add: digits_value_def digit_char_digit)
  next
    case False
    with 1 have IH: "digits_value (lexical_cast (n div 10)) = n div 10" by simp
    have d: "is_digit (digit_char (n mod 10))"
      "(of_char (digit_char (n mod 10)) :: nat) = 48 + n mod 10"
      by (simp_all add: digit_char_digit)
    have "lexical_cast n = lexical_cast (n div 10) @ [digit_char (n mod 10)]"
      using False by (subst lexical_cast.simps) simp
    then have "digits_value (lexical_cast n) = 10 * (n div 10) + n mod 10"
      using IH d by (simp add: digits_value_snoc lexical_cast_digits)
    then show ?thesis by simp
  qed
qed

lemma digits_value_prefix:
  assumes "list_all is_digit ds" and "\<not> is_digit c"
  shows "digits_value (ds @ c # cs) = digits_value ds"
proof -
  from assms have "takeWhile is_digit (ds @ c # cs) = ds"
    by (simp add: list_all_iff)
  then have "digits_value (ds @ c # cs) =
      foldl (\<lambda>a c. 10 * a + ((of_char c :: nat) - 48)) 0 ds"
    by (simp only: digits_value_def)
  also have "\<dots> = digits_value ds"
    using assms(1) by (simp add: digits_value_all)
  finally show ?thesis .
qed

lemma push_size_error_counts:
  assumes "push_size_error n m = push_size_error n' m'"
  shows "n = n' \<and> m = m'"
proof -
  let ?sep = "'' Pushed:''"
  from assms have eq: "lexical_cast n @ ?sep @ lexical_cast m = lexical_cast n' @ ?sep @ lexical_cast m'"
    by (simp add: push_size_error_def)
  have sp: "\<not> is_digit (CHR '' '')" by (simp add: is_digit_def)
  have "digits_value (lexical_cast n @ ?sep @ lexical_cast m) = n"
    using digits_value_prefix [OF lexical_cast_digits sp] by (simp add: digits_value_lexical_cast)
  moreover have "digits_value (lexical_cast n' @ ?sep @ lexical_cast m') = n'"
    using digits_value_prefix [OF lexical_cast_digits sp] by (simp add: digits_value_lexical_cast)
  ultimately have n: "n = n'" using eq by simp
  with eq have "lexical_cast m = lexical_cast m'" by simp
  then have "digits_value (lexical_cast m) = digits_value (lexical_cast m')" by simp
  then have "m = m'" by (simp add: digits_value_lexical_cast)
  with n show ?thesis by simp
qed

subsection \<open>The loop and its counters\<close>

lemma ParseWords_append:
  "ParseWords opNames s (ws1 @ ws2) st =
     (case ParseWords opNames s ws1 st of
        Inl e \<Rightarrow> Inl e
      | Inr st' \<Rightarrow> ParseWords opNames s ws2 st')"
  by (induction ws1 arbitrary: st) (auto split: sum.splits)

lemma length_1_conv: "length bs = Suc 0 \<Longrightarrow> \<exists>a. bs = [a]"
  by (cases bs) auto

lemma length_2_conv: "length bs = 2 \<Longrightarrow> \<exists>a b. bs = [a, b]"
  by (auto simp: numeral_2_eq_2 length_Suc_conv)

lemma length_4_conv: "length bs = 4 \<Longrightarrow> \<exists>a b c d. bs = [a, b, c, d]"
  by (auto simp: numeral_eq_Suc length_Suc_conv)

lemma read_push_size_le_value:
  assumes "length bs = k" and "k = 1 \<or> k = 2 \<or> k = 4"
  shows "read_push_size k bs = Some (le_value bs)"
proof -
  from assms(2) consider "k = 1" | "k = 2" | "k = 4" by blast
  then show ?thesis
  proof cases
    case 1
    with assms obtain a where "bs = [a]" using length_1_conv by auto
    with 1 show ?thesis by (simp add: read_push_size_def le_value_def)
  next
    case 2
    with assms obtain a b where "bs = [a, b]" using length_2_conv by blast
    with 2 show ?thesis by (simp add: read_push_size_def le_value_def)
  next
    case 3
    with assms obtain a b c d where "bs = [a, b, c, d]" using length_4_conv by blast
    with 3 show ?thesis by (simp add: read_push_size_def le_value_def)
  qed
qed

lemma process_word_push:
  assumes "word_bytes opNames s w = Inr bs" and "next_push_size st = N" and "N \<noteq> 0"
  shows "process_word opNames s st w =
     (if length bs \<noteq> N then Inl (push_size_error N (length bs))
      else if push_data_size st \<noteq> 0 then
        (case read_push_size (push_data_size st) bs of
           None \<Rightarrow> Inl out_of_bounds
         | Some n \<Rightarrow> Inr \<lparr>result = result st @ bs, next_push_size = n, push_data_size = 0\<rparr>)
      else Inr \<lparr>result = result st @ bs, next_push_size = 0, push_data_size = 0\<rparr>)"
  using assms
  by (cases st) (auto simp: process_word_def read_length_field_def Let_def split: option.splits)

lemma process_word_push_ok:
  assumes "word_bytes opNames s w = Inr bs" and "next_push_size st = N" and "N \<noteq> 0"
      and "push_state_ok st"
  shows "process_word opNames s st w =
     (if length bs \<noteq> N then Inl (push_size_error N (length bs))
      else Inr \<lparr>result = result st @ bs,
                next_push_size = (if push_data_size st = 0 then 0 else le_value bs),
                push_data_size = 0\<rparr>)"
proof (cases "length bs = N \<and> push_data_size st \<noteq> 0")
  case True
  with assms(2,4) have "length bs = push_data_size st"
    and "push_data_size st = 1 \<or> push_data_size st = 2 \<or> push_data_size st = 4"
    by (auto simp: push_state_ok_def)
  then have "read_push_size (push_data_size st) bs = Some (le_value bs)"
    by (rule read_push_size_le_value)
  with True show ?thesis
    by (simp add: process_word_push [OF assms(1-3)])
next
  case False
  then show ?thesis
    by (auto simp: process_word_push [OF assms(1-3)])
qed

lemma push_state_ok_initial: "push_state_ok initial_state"
  by (simp add: push_state_ok_def initial_state_def)

lemma push_state_ok_note_opcode:
  "push_data_size st = 0 \<Longrightarrow> push_state_ok (note_opcode st)"
  by (simp add: push_state_ok_def note_opcode_def Let_def)

lemma push_state_ok_no_push: "push_state_ok st \<Longrightarrow> next_push_size st = 0 \<Longrightarrow> push_data_size st = 0"
  by (auto simp: push_state_ok_def)

lemma process_word_keeps_ok:
  assumes "push_state_ok st" and "process_word opNames s st w = Inr st'"
  shows "push_state_ok st'"
proof -
  from assms(2) obtain bs where wb: "word_bytes opNames s w = Inr bs"
    by (cases "word_bytes opNames s w") (auto simp: process_word_def)
  show ?thesis
  proof (cases "next_push_size st = 0")
    case True
    with assms(1) have "push_data_size st = 0" by (rule push_state_ok_no_push)
    let ?st = "\<lparr>result = result st @ bs, next_push_size = 0, push_data_size = push_data_size st\<rparr>"
    have "push_data_size ?st = 0" by (simp add: \<open>push_data_size st = 0\<close>)
    then have "push_state_ok (note_opcode ?st)" and "push_state_ok ?st"
      by (simp_all only: push_state_ok_note_opcode) (simp add: push_state_ok_def)
    moreover have "st' = (if length bs = 1 then note_opcode ?st else ?st)"
      using assms(2) process_word_no_push [OF wb True] by simp
    ultimately show ?thesis by simp
  next
    case False
    with assms wb show ?thesis
      by (auto simp: process_word_push_ok [OF wb refl] push_state_ok_def split: if_splits)
  qed
qed

lemma ParseWords_keeps_ok:
  "push_state_ok st \<Longrightarrow> ParseWords opNames s ws st = Inr st' \<Longrightarrow> push_state_ok st'"
proof (induction ws arbitrary: st)
  case Nil
  then show ?case by simp
next
  case (Cons w ws)
  show ?case
  proof (cases "w = []")
    case True
    with Cons show ?thesis by simp
  next
    case False
    with Cons.prems obtain st1 where st1: "process_word opNames s st w = Inr st1"
      and rest: "ParseWords opNames s ws st1 = Inr st'"
      by (auto split: sum.splits)
    from Cons.prems(1) st1 have "push_state_ok st1" by (rule process_word_keeps_ok)
    then show ?thesis using rest by (rule Cons.IH)
  qed
qed

lemma reached_state_ok:
  "ParseWords opNames s pre initial_state = Inr st \<Longrightarrow> push_state_ok st"
  using push_state_ok_initial by (rule ParseWords_keeps_ok)

lemma ParseWords_snoc:
  "ParseWords opNames s pre st0 = Inr st \<Longrightarrow> w \<noteq> [] \<Longrightarrow>
   ParseWords opNames s (pre @ w # ws) st0 =
     (case process_word opNames s st w of
        Inl e \<Rightarrow> Inl e
      | Inr st' \<Rightarrow> ParseWords opNames s ws st')"
  by (simp add: ParseWords_append)

lemma note_opcode_pushdata:
  assumes "(op = OP_PUSHDATA1 \<and> k = 1) \<or> (op = OP_PUSHDATA2 \<and> k = 2) \<or> (op = OP_PUSHDATA4 \<and> k = 4)"
  shows "note_opcode \<lparr>result = r @ [op], next_push_size = 0, push_data_size = p\<rparr> =
           \<lparr>result = r @ [op], next_push_size = k, push_data_size = k\<rparr>"
  using assms
  by (auto simp: note_opcode_def OP_PUSHDATA1_def OP_PUSHDATA2_def OP_PUSHDATA4_def)

lemma note_opcode_direct:
  "b < OP_PUSHDATA1 \<Longrightarrow>
   note_opcode \<lparr>result = r @ [b], next_push_size = 0, push_data_size = p\<rparr> =
     \<lparr>result = r @ [b], next_push_size = unat b, push_data_size = p\<rparr>"
  by (simp add: note_opcode_def)

lemma word_bytes_error:
  "word_bytes opNames s w = Inl e \<Longrightarrow> e = hex_error \<or> e = parse_error s"
  by (auto simp: word_bytes_def split: if_splits option.splits)

lemma process_word_error:
  assumes "push_state_ok st" and "process_word opNames s st w = Inl e"
  shows "e = hex_error \<or> e = parse_error s \<or>
         (\<exists>n m. n \<noteq> 0 \<and> m \<noteq> n \<and> e = push_size_error n m)"
proof (cases "word_bytes opNames s w")
  case (Inl e')
  with assms(2) have "e = e'" by (simp add: process_word_Inl)
  with Inl show ?thesis using word_bytes_error by blast
next
  case (Inr bs)
  show ?thesis
  proof (cases "next_push_size st = 0")
    case True
    with assms(2) Inr show ?thesis by (simp add: process_word_no_push)
  next
    case False
    with assms(2) have "length bs \<noteq> next_push_size st"
      and "e = push_size_error (next_push_size st) (length bs)"
      using process_word_push_ok [OF Inr refl False assms(1)]
      by (auto split: if_splits)
    with False show ?thesis by blast
  qed
qed

lemma ParseWords_error:
  "push_state_ok st \<Longrightarrow> ParseWords opNames s ws st = Inl e \<Longrightarrow>
   e = hex_error \<or> e = parse_error s \<or>
   (\<exists>n m. n \<noteq> 0 \<and> m \<noteq> n \<and> e = push_size_error n m)"
proof (induction ws arbitrary: st)
  case Nil
  then show ?case by simp
next
  case (Cons w ws)
  show ?case
  proof (cases "w = []")
    case True
    with Cons show ?thesis by simp
  next
    case False
    show ?thesis
    proof (cases "process_word opNames s st w")
      case (Inl e')
      with Cons.prems False have "e = e'" by simp
      with Inl Cons.prems(1) show ?thesis using process_word_error by blast
    next
      case (Inr st1)
      with Cons.prems(1) have "push_state_ok st1" by (simp add: process_word_keeps_ok)
      moreover from Cons.prems(2) False Inr have "ParseWords opNames s ws st1 = Inl e" by simp
      ultimately show ?thesis by (rule Cons.IH)
    qed
  qed
qed

lemma push_opcode_cases:
  fixes b :: byte
  assumes "b \<le> OP_PUSHDATA4"
  shows "b < OP_PUSHDATA1 \<or> b = OP_PUSHDATA1 \<or> b = OP_PUSHDATA2 \<or> b = OP_PUSHDATA4"
  using assms unfolding OP_PUSHDATA1_def OP_PUSHDATA2_def OP_PUSHDATA4_def
  by unat_arith

lemma process_word_opens_push:
  assumes "next_push_size st = 0" and "push_state_ok st"
      and "word_bytes opNames s w = Inr [b]" and "b \<noteq> 0" and "b \<le> OP_PUSHDATA4"
  shows "\<exists>st'. process_word opNames s st w = Inr st' \<and> result st' = result st @ [b] \<and>
               next_push_size st' \<noteq> 0"
proof -
  from assms(1,2) have pds: "push_data_size st = 0" by (simp add: push_state_ok_no_push)
  let ?st = "\<lparr>result = result st @ [b], next_push_size = 0, push_data_size = 0\<rparr>"
  have pw: "process_word opNames s st w = Inr (note_opcode ?st)"
    using process_word_no_push [OF assms(3,1)] pds by simp
  from push_opcode_cases [OF assms(5)] consider
    "b < OP_PUSHDATA1" | k where "(b = OP_PUSHDATA1 \<and> k = 1) \<or> (b = OP_PUSHDATA2 \<and> k = 2) \<or>
           (b = OP_PUSHDATA4 \<and> k = (4::nat))"
    by auto
  then have "next_push_size (note_opcode ?st) \<noteq> 0"
  proof cases
    case 1
    from assms(4) have "unat b \<noteq> 0" by (simp add: unat_eq_zero)
    with 1 show ?thesis by (simp add: note_opcode_direct)
  next
    case 2
    then have "k \<noteq> 0" by auto
    with 2 show ?thesis by (simp add: note_opcode_pushdata [OF 2])
  qed
  with pw show ?thesis by simp
qed

lemma process_word_pushdata:
  assumes "next_push_size st = 0" and "word_bytes opNames s w = Inr [op]"
      and "(op = OP_PUSHDATA1 \<and> k = 1) \<or> (op = OP_PUSHDATA2 \<and> k = 2) \<or>
           (op = OP_PUSHDATA4 \<and> k = 4)"
  shows "process_word opNames s st w =
           Inr \<lparr>result = result st @ [op], next_push_size = k, push_data_size = k\<rparr>"
  using process_word_no_push [OF assms(2,1)] note_opcode_pushdata [OF assms(3)]
  by simp

lemma process_word_length_field:
  assumes "word_bytes opNames s w = Inr bs" and "k = 1 \<or> k = 2 \<or> k = 4"
  shows "process_word opNames s \<lparr>result = r, next_push_size = k, push_data_size = k\<rparr> w =
     (if length bs \<noteq> k then Inl (push_size_error k (length bs))
      else Inr \<lparr>result = r @ bs, next_push_size = le_value bs, push_data_size = 0\<rparr>)"
proof -
  let ?st = "\<lparr>result = r, next_push_size = k, push_data_size = k\<rparr>"
  from assms(2) have k: "k \<noteq> 0" by auto
  from assms(2) have "push_state_ok ?st" by (simp add: push_state_ok_def)
  from process_word_push_ok [OF assms(1) _ k this] k show ?thesis by simp
qed

subsection \<open>The table of opcode names\<close>

lemma add_op_name_lookup:
  "add_op_name GetOpName m op w =
     (if OP_PUSHDATA1 \<le> op \<and> GetOpName op \<noteq> ''OP_UNKNOWN'' \<and>
         (w = GetOpName op \<or> w = replace_first (GetOpName op) ''OP_'' [])
      then Some op else m w)"
  by (auto simp: add_op_name_def Let_def not_less)

lemma foldl_add_op_name_entry:
  "foldl (add_op_name GetOpName) m ops w = Some op \<Longrightarrow>
   m w = Some op \<or>
   (op \<in> set ops \<and> OP_PUSHDATA1 \<le> op \<and> GetOpName op \<noteq> ''OP_UNKNOWN'' \<and>
    (w = GetOpName op \<or> w = replace_first (GetOpName op) ''OP_'' []))"
proof (induction ops arbitrary: m)
  case Nil
  then show ?case by simp
next
  case (Cons x ops)
  from Cons.prems have "foldl (add_op_name GetOpName) (add_op_name GetOpName m x) ops w = Some op"
    by simp
  from Cons.IH [OF this] have
    "add_op_name GetOpName m x w = Some op \<or>
     (op \<in> set ops \<and> OP_PUSHDATA1 \<le> op \<and> GetOpName op \<noteq> ''OP_UNKNOWN'' \<and>
      (w = GetOpName op \<or> w = replace_first (GetOpName op) ''OP_'' []))" .
  then show ?case
    by (subst (asm) add_op_name_lookup) (auto split: if_splits)
qed

lemma op_in_range: "op \<in> of_nat ` {0 ..< unat F} \<longleftrightarrow> op < (F :: byte)"
proof
  assume "op \<in> of_nat ` {0 ..< unat F}"
  then obtain n where n: "n < unat F" and op: "op = of_nat n" by auto
  have "unat F < 2 ^ LENGTH(8)" by (rule unsigned_less)
  with n have "n < 2 ^ LENGTH(8)" by simp
  then have "unat (of_nat n :: byte) = n"
    by (simp add: unat_of_nat)
  with n op show "op < F" by (simp add: word_less_nat_alt)
next
  assume "op < F"
  then have "unat op < unat F" by (simp add: word_less_nat_alt)
  moreover have "op = of_nat (unat op)" by simp
  ultimately show "op \<in> of_nat ` {0 ..< unat F}"
    by (metis atLeastLessThan_iff image_eqI le0)
qed

lemma mapOpNames_entry:
  assumes "mapOpNames GetOpName FIRST w = Some op"
  shows "OP_PUSHDATA1 \<le> op \<and> op < FIRST \<and> GetOpName op \<noteq> ''OP_UNKNOWN'' \<and>
         (w = GetOpName op \<or> w = replace_first (GetOpName op) ''OP_'' [])"
  using foldl_add_op_name_entry [OF assms [unfolded mapOpNames_def]]
  by (simp add: op_in_range)

lemma foldl_add_op_name_present:
  assumes "op \<in> set ops" and "OP_PUSHDATA1 \<le> op" and "GetOpName op \<noteq> ''OP_UNKNOWN''"
      and "w = GetOpName op \<or> w = replace_first (GetOpName op) ''OP_'' []"
      and "\<forall>op' \<in> set ops. op' \<noteq> op \<and> OP_PUSHDATA1 \<le> op' \<and> GetOpName op' \<noteq> ''OP_UNKNOWN''
             \<longrightarrow> w \<noteq> GetOpName op' \<and> w \<noteq> replace_first (GetOpName op') ''OP_'' []"
  shows "foldl (add_op_name GetOpName) m ops w = Some op"
  using assms(1,5)
proof (induction ops rule: rev_induct)
  case Nil
  then show ?case by simp
next
  case (snoc x ops)
  show ?case
  proof (cases "x = op")
    case True
    have "foldl (add_op_name GetOpName) m (ops @ [x]) w =
            add_op_name GetOpName (foldl (add_op_name GetOpName) m ops) x w"
      by simp
    also have "\<dots> = Some op"
      using True assms(2-4) by (subst add_op_name_lookup) simp
    finally show ?thesis .
  next
    case False
    with snoc.prems have "op \<in> set ops" by simp
    moreover from snoc.prems have
      "\<forall>op' \<in> set ops. op' \<noteq> op \<and> OP_PUSHDATA1 \<le> op' \<and> GetOpName op' \<noteq> ''OP_UNKNOWN''
             \<longrightarrow> w \<noteq> GetOpName op' \<and> w \<noteq> replace_first (GetOpName op') ''OP_'' []"
      by simp
    ultimately have IH: "foldl (add_op_name GetOpName) m ops w = Some op"
      by (rule snoc.IH)
    from snoc.prems(2) False have other:
      "\<not> (OP_PUSHDATA1 \<le> x \<and> GetOpName x \<noteq> ''OP_UNKNOWN'' \<and>
          (w = GetOpName x \<or> w = replace_first (GetOpName x) ''OP_'' []))"
      by auto
    have "foldl (add_op_name GetOpName) m (ops @ [x]) w =
            add_op_name GetOpName (foldl (add_op_name GetOpName) m ops) x w"
      by simp
    also have "\<dots> = foldl (add_op_name GetOpName) m ops w"
      using other by (subst add_op_name_lookup) auto
    finally show ?thesis using IH by simp
  qed
qed

lemma mapOpNames_present:
  assumes "OP_PUSHDATA1 \<le> op" and "op < FIRST" and "GetOpName op \<noteq> ''OP_UNKNOWN''"
      and "w = GetOpName op \<or> w = replace_first (GetOpName op) ''OP_'' []"
      and "\<forall>op'. op' \<noteq> op \<and> OP_PUSHDATA1 \<le> op' \<and> op' < FIRST \<and> GetOpName op' \<noteq> ''OP_UNKNOWN''
             \<longrightarrow> w \<noteq> GetOpName op' \<and> w \<noteq> replace_first (GetOpName op') ''OP_'' []"
  shows "mapOpNames GetOpName FIRST w = Some op"
  unfolding mapOpNames_def
  using assms by (intro foldl_add_op_name_present) (auto simp: op_in_range)










subsection \<open>Messages as C strings\<close>

lemma c_str_no_NUL: "CHR 0x00 \<notin> set str \<Longrightarrow> c_str str = str"
  by (auto simp: c_str_def)

lemma c_str_parse_message:
  "c_str (''Error parsing script: '' @ s) = ''Error parsing script: '' @ c_str s"
  by (simp add: c_str_def)

lemma digit_not_NUL: "is_digit c \<Longrightarrow> c \<noteq> CHR 0x00"
  by (auto simp: is_digit_def)

lemma lexical_cast_no_NUL: "CHR 0x00 \<notin> set (lexical_cast n)"
  using lexical_cast_digits [of n] digit_not_NUL by (auto simp: list_all_iff)

lemma c_str_other_messages:
  "c_str ''Hex numbers expected to be formatted in full-byte chunks (ex: 0x00 instead of 0x0)'' =
     ''Hex numbers expected to be formatted in full-byte chunks (ex: 0x00 instead of 0x0)''"
  "c_str (''Wrong number of bytes being pushed. Expected:'' @ lexical_cast n @
          '' Pushed:'' @ lexical_cast m) =
     ''Wrong number of bytes being pushed. Expected:'' @ lexical_cast n @
     '' Pushed:'' @ lexical_cast m"
  by (rule c_str_no_NUL, simp add: lexical_cast_no_NUL)+

lemma example_table_miss:
  assumes "w \<notin> {''OP_PUSHDATA1'', ''PUSHDATA1'', ''OP_PUSHDATA2'', ''PUSHDATA2'',
                ''OP_PUSHDATA4'', ''PUSHDATA4'', ''-1'', ''1'', ''OP_DUP'', ''DUP'',
                ''OP_ADD'', ''ADD'', ''OP_CHECKSIG'', ''CHECKSIG''}"
  shows "mapOpNames example_GetOpName example_FIRST_UNDEFINED_OP_VALUE w = None"
proof (cases "mapOpNames example_GetOpName example_FIRST_UNDEFINED_OP_VALUE w")
  case None
  then show ?thesis .
next
  case (Some op)
  then have "example_GetOpName op \<noteq> ''OP_UNKNOWN'' \<and>
      (w = example_GetOpName op \<or> w = replace_first (example_GetOpName op) ''OP_'' [])"
    using mapOpNames_entry by blast
  with assms show ?thesis
    by (auto simp: example_GetOpName_def split: if_splits)
qed

text \<open>No run of \<^verbatim>\<open>ParseScript\<close> reads outside the buffer.\<close>

lemma ParseScript_in_bounds: "ParseScript GetOpName FIRST s \<noteq> Inl out_of_bounds"
proof
  assume "ParseScript GetOpName FIRST s = Inl out_of_bounds"
  then have
    "ParseWords (mapOpNames GetOpName FIRST) s (split_compress is_separator s) initial_state =
       Inl out_of_bounds"
    by (simp add: ParseScript_def split: sum.splits)
  with push_state_ok_initial have
    "out_of_bounds = hex_error \<or> out_of_bounds = parse_error s \<or>
     (\<exists>n m. n \<noteq> 0 \<and> m \<noteq> n \<and> out_of_bounds = push_size_error n m)"
    by (rule ParseWords_error)
  then show False
    by (simp add: hex_error_def parse_error_def push_size_error_def)
qed

text \<open>The facts that evaluate the loop on a concrete input.\<close>

lemmas eval_simps = is_separator_def process_word_def read_length_field_def Let_def
  initial_state_def note_opcode_def
  OP_PUSHDATA1_def OP_PUSHDATA2_def OP_PUSHDATA4_def IsHex_def HexDigit_def read_push_size_def
  le_value_def lexical_cast.simps digit_char_def push_size_error_def hex_error_def parse_error_def
  c_str_def

section \<open>The claims about the assembler\<close>







lemma is_number_minus: "is_number ''-''"
  by (simp add: is_number_def)

text \<open>
  C6. The test of the decimal rule also accepts the word that is a lone minus sign: the
  rest of the word is empty, and every character of the empty string is a digit. The word
  is then read by \<^verbatim>\<open>atoi64\<close> as 0 and assembles to the single byte 0, where the spec
  expects the syntax error.
\<close>

theorem lone_minus_is_number:
  "is_number ''-''
   \<and> word_bytes opNames s ''-'' = Inr [0]
   \<and> ParseScript GetOpName FIRST ''-'' = Inr [0]"
proof -
  have a: "atoi64 ''-'' = 0"
    by (simp add: atoi64_def digits_value_def)
  have wb: "word_bytes opNames s ''-'' = Inr [0]" for opNames s
    by (simp add: word_bytes_def is_number_minus a push_int64_def)
  have "ParseScript GetOpName FIRST ''-'' = Inr [0]"
    by (simp add: ParseScript_single_word is_separator_def wb)
  with wb is_number_minus show ?thesis by blast
qed

text \<open>
  C10. When the loop over the words of the input ends in a state in which a push is still
  expected, \<^verbatim>\<open>ParseScript\<close> returns the buffer all the same: nothing looks at the counters
  after the last word. This is so for every input whose last word, with no push pending,
  appends a single byte from 1 to \<^verbatim>\<open>OP_PUSHDATA4\<close> (a direct push or a \<^verbatim>\<open>PUSHDATA\<close>
  opcode), and for every input that ends with a \<^verbatim>\<open>PUSHDATA\<close> opcode and a length field
  that is not 0.
\<close>

theorem no_check_at_end_of_input:
  "(ParseWords (mapOpNames GetOpName FIRST) s (split_compress is_separator s) initial_state
      = Inr st \<and> next_push_size st \<noteq> 0
    \<longrightarrow> ParseScript GetOpName FIRST s = Inr (result st))
 \<and> (split_compress is_separator s = pre @ [w] \<and>
    ParseWords (mapOpNames GetOpName FIRST) s pre initial_state = Inr st0 \<and>
    next_push_size st0 = 0 \<and> w \<noteq> [] \<and>
    word_bytes (mapOpNames GetOpName FIRST) s w = Inr [b] \<and> b \<noteq> 0 \<and> b \<le> OP_PUSHDATA4
    \<longrightarrow> ParseScript GetOpName FIRST s = Inr (result st0 @ [b]) \<and>
        (\<exists>st'. ParseWords (mapOpNames GetOpName FIRST) s (pre @ [w]) initial_state = Inr st' \<and>
               next_push_size st' \<noteq> 0))
 \<and> (split_compress is_separator s = pre @ [w1, w2] \<and>
    ParseWords (mapOpNames GetOpName FIRST) s pre initial_state = Inr st0 \<and>
    next_push_size st0 = 0 \<and> w1 \<noteq> [] \<and>
    word_bytes (mapOpNames GetOpName FIRST) s w1 = Inr [op] \<and>
    ((op = OP_PUSHDATA1 \<and> k = 1) \<or> (op = OP_PUSHDATA2 \<and> k = 2) \<or>
     (op = OP_PUSHDATA4 \<and> k = 4)) \<and>
    w2 \<noteq> [] \<and> word_bytes (mapOpNames GetOpName FIRST) s w2 = Inr bs \<and>
    length bs = k \<and> le_value bs \<noteq> 0
    \<longrightarrow> ParseScript GetOpName FIRST s = Inr (result st0 @ op # bs) \<and>
        ParseWords (mapOpNames GetOpName FIRST) s (pre @ [w1, w2]) initial_state =
          Inr \<lparr>result = result st0 @ op # bs, next_push_size = le_value bs,
               push_data_size = 0\<rparr>)"
proof -
  let ?tbl = "mapOpNames GetOpName FIRST"
  have general: "ParseScript GetOpName FIRST s = Inr (result st)"
    if "ParseWords ?tbl s (split_compress is_separator s) initial_state = Inr st" for st
    using that by (simp add: ParseScript_def)
  have open_push: "ParseScript GetOpName FIRST s = Inr (result st0 @ [b]) \<and>
        (\<exists>st'. ParseWords ?tbl s (pre @ [w]) initial_state = Inr st' \<and> next_push_size st' \<noteq> 0)"
    if h: "split_compress is_separator s = pre @ [w]"
      "ParseWords ?tbl s pre initial_state = Inr st0" "next_push_size st0 = 0" "w \<noteq> []"
      "word_bytes ?tbl s w = Inr [b]" "b \<noteq> 0" "b \<le> OP_PUSHDATA4"
  proof -
    from h(2) have "push_state_ok st0" by (rule reached_state_ok)
    from process_word_opens_push [OF h(3) this h(5,6,7)] obtain st'
      where st': "process_word ?tbl s st0 w = Inr st'" "result st' = result st0 @ [b]"
        "next_push_size st' \<noteq> 0" by blast
    from st'(1) have run: "ParseWords ?tbl s (pre @ [w]) initial_state = Inr st'"
      by (simp add: ParseWords_snoc [OF h(2,4)])
    with h(1) st'(2) have "ParseScript GetOpName FIRST s = Inr (result st0 @ [b])"
      by (simp add: ParseScript_def)
    with run st'(3) show ?thesis by blast
  qed
  have field: "ParseScript GetOpName FIRST s = Inr (result st0 @ op # bs) \<and>
        ParseWords ?tbl s (pre @ [w1, w2]) initial_state =
          Inr \<lparr>result = result st0 @ op # bs, next_push_size = le_value bs, push_data_size = 0\<rparr>"
    if h: "split_compress is_separator s = pre @ [w1, w2]"
      "ParseWords ?tbl s pre initial_state = Inr st0" "next_push_size st0 = 0" "w1 \<noteq> []"
      "word_bytes ?tbl s w1 = Inr [op]"
      "(op = OP_PUSHDATA1 \<and> k = 1) \<or> (op = OP_PUSHDATA2 \<and> k = 2) \<or>
       (op = OP_PUSHDATA4 \<and> k = 4)"
      "w2 \<noteq> []" "word_bytes ?tbl s w2 = Inr bs" "length bs = k"
  proof -
    let ?st1 = "\<lparr>result = result st0 @ [op], next_push_size = k, push_data_size = k\<rparr>"
    from h(6) have k: "k = 1 \<or> k = 2 \<or> k = 4" by auto
    have "process_word ?tbl s st0 w1 = Inr ?st1"
      using h(3,5,6) by (rule process_word_pushdata)
    then have first: "ParseWords ?tbl s (pre @ [w1]) initial_state = Inr ?st1"
      by (simp add: ParseWords_snoc [OF h(2,4)])
    have "process_word ?tbl s ?st1 w2 =
        Inr \<lparr>result = result st0 @ op # bs, next_push_size = le_value bs, push_data_size = 0\<rparr>"
      using process_word_length_field [OF h(8) k] h(9) by simp
    moreover have "pre @ [w1, w2] = (pre @ [w1]) @ w2 # []" by simp
    ultimately have run: "ParseWords ?tbl s (pre @ [w1, w2]) initial_state =
        Inr \<lparr>result = result st0 @ op # bs, next_push_size = le_value bs, push_data_size = 0\<rparr>"
      by (simp only: ParseWords_snoc [OF first h(7)]) simp
    with h(1) show ?thesis by (simp add: ParseScript_def)
  qed
  from general open_push field show ?thesis by blast
qed

theorem no_check_at_end_of_input_witness:
  "ParseScript example_GetOpName example_FIRST_UNDEFINED_OP_VALUE ''0x05'' = Inr [5]
   \<and> ParseScript example_GetOpName example_FIRST_UNDEFINED_OP_VALUE ''0x00 0x4c'' = Inr [0, 76]
   \<and> ParseScript example_GetOpName example_FIRST_UNDEFINED_OP_VALUE ''0x4c 0x03'' = Inr [76, 3]"
  using no_check_at_end_of_input [where GetOpName = example_GetOpName
      and FIRST = example_FIRST_UNDEFINED_OP_VALUE and s = "''0x05''"
      and st = "\<lparr>result = [5], next_push_size = 5, push_data_size = 0\<rparr>"]
    no_check_at_end_of_input [where GetOpName = example_GetOpName
      and FIRST = example_FIRST_UNDEFINED_OP_VALUE and s = "''0x00 0x4c''"
      and pre = "[''0x00'']" and w = "''0x4c''"
      and ?st0.0 = "\<lparr>result = [0], next_push_size = 0, push_data_size = 0\<rparr>" and b = 76]
    no_check_at_end_of_input [where GetOpName = example_GetOpName
      and FIRST = example_FIRST_UNDEFINED_OP_VALUE and s = "''0x4c 0x03''"
      and pre = "[]" and ?w1.0 = "''0x4c''" and ?w2.0 = "''0x03''"
      and ?st0.0 = initial_state and op = 76 and k = 1 and bs = "[3]"]
  by (simp add: eval_simps)

text \<open>
  C1, as stated, fails where it says that the expectation is cleared: after the opcode
  \<^verbatim>\<open>0x4c\<close> one byte is expected, the word \<^verbatim>\<open>0x02\<close> brings it, and a push of two
  bytes is expected afterwards, so that the third word, of one byte, is refused.
\<close>

theorem push_size_enforced_counterexample:
  "ParseWords (mapOpNames example_GetOpName example_FIRST_UNDEFINED_OP_VALUE)
     ''0x4c 0x02 0x01'' [''0x4c''] initial_state =
     Inr \<lparr>result = [76], next_push_size = 1, push_data_size = 1\<rparr>
   \<and> ParseWords (mapOpNames example_GetOpName example_FIRST_UNDEFINED_OP_VALUE)
     ''0x4c 0x02 0x01'' [''0x4c'', ''0x02''] initial_state =
     Inr \<lparr>result = [76, 2], next_push_size = 2, push_data_size = 0\<rparr>
   \<and> ParseScript example_GetOpName example_FIRST_UNDEFINED_OP_VALUE ''0x4c 0x02 0x01'' =
     Inl (runtime_error ''Wrong number of bytes being pushed. Expected:2 Pushed:1'')"
  by (simp add: ParseScript_def eval_simps)

text \<open>
  C1, amended. Let the words before \<open>w\<close> leave a push of \<open>N\<close> bytes pending, \<open>N\<close>
  not 0, and let \<open>w\<close> append the bytes \<open>bs\<close>. When the number of these bytes differs
  from \<open>N\<close>, the assembler fails with the error about the wrong number of pushed bytes,
  whose message gives \<open>N\<close> and the number of bytes. When the number is \<open>N\<close>, the word is
  accepted and no push is expected any more, unless the bytes were the length field of a
  \<^verbatim>\<open>PUSHDATA\<close> opcode: then their value is the push expected next.
\<close>

theorem push_size_enforced:
  assumes "split_compress is_separator s = pre @ w # ws"
      and "ParseWords (mapOpNames GetOpName FIRST) s pre initial_state = Inr st"
      and "next_push_size st = N" and "N \<noteq> 0"
      and "w \<noteq> []"
      and "word_bytes (mapOpNames GetOpName FIRST) s w = Inr bs"
  shows "(length bs \<noteq> N \<longrightarrow>
            ParseScript GetOpName FIRST s =
              Inl (runtime_error
                    (''Wrong number of bytes being pushed. Expected:'' @ lexical_cast N @
                     '' Pushed:'' @ lexical_cast (length bs))))
       \<and> (length bs = N \<longrightarrow>
            ParseWords (mapOpNames GetOpName FIRST) s (pre @ [w]) initial_state =
              Inr \<lparr>result = result st @ bs,
                   next_push_size = (if push_data_size st = 0 then 0 else le_value bs),
                   push_data_size = 0\<rparr>)"
proof -
  let ?tbl = "mapOpNames GetOpName FIRST"
  have ok: "push_state_ok st"
    using assms(2) by (rule reached_state_ok)
  have pw: "process_word ?tbl s st w =
     (if length bs \<noteq> N then Inl (push_size_error N (length bs))
      else Inr \<lparr>result = result st @ bs,
                next_push_size = (if push_data_size st = 0 then 0 else le_value bs),
                push_data_size = 0\<rparr>)"
    using assms(6,3,4) ok by (rule process_word_push_ok)
  have fail: "ParseScript GetOpName FIRST s = Inl (push_size_error N (length bs))"
    if "length bs \<noteq> N"
    using that pw by (simp add: ParseScript_def assms(1) ParseWords_snoc [OF assms(2,5)])
  have good: "ParseWords ?tbl s (pre @ [w]) initial_state =
      Inr \<lparr>result = result st @ bs,
           next_push_size = (if push_data_size st = 0 then 0 else le_value bs),
           push_data_size = 0\<rparr>"
    if "length bs = N"
    using that pw by (simp add: ParseWords_snoc [OF assms(2,5)])
  from fail good show ?thesis
    by (simp add: push_size_error_def)
qed

theorem push_size_enforced_witness:
  "ParseScript example_GetOpName example_FIRST_UNDEFINED_OP_VALUE ''0x02 0x01'' =
     Inl (runtime_error ''Wrong number of bytes being pushed. Expected:2 Pushed:1'')
   \<and> ParseWords (mapOpNames example_GetOpName example_FIRST_UNDEFINED_OP_VALUE)
        ''0x02 0x0102'' [''0x02'', ''0x0102''] initial_state =
     Inr \<lparr>result = [2, 1, 2], next_push_size = 0, push_data_size = 0\<rparr>"
  using push_size_enforced [of "''0x02 0x01''" "[''0x02'']" "''0x01''" "[]"
      example_GetOpName example_FIRST_UNDEFINED_OP_VALUE
      "\<lparr>result = [2], next_push_size = 2, push_data_size = 0\<rparr>" 2 "[1]"]
    push_size_enforced [of "''0x02 0x0102''" "[''0x02'']" "''0x0102''" "[]"
      example_GetOpName example_FIRST_UNDEFINED_OP_VALUE
      "\<lparr>result = [2], next_push_size = 2, push_data_size = 0\<rparr>" 2 "[1, 2]"]
  by (simp add: eval_simps)

lemma example_table_PUSHDATA1:
  "mapOpNames example_GetOpName example_FIRST_UNDEFINED_OP_VALUE ''OP_PUSHDATA1'' = Some 76"
  by (rule mapOpNames_present)
     (auto simp: example_GetOpName_def example_FIRST_UNDEFINED_OP_VALUE_def OP_PUSHDATA1_def
           split: if_splits)

text \<open>
  C2, as stated, fails for a \<^verbatim>\<open>PUSHDATA\<close> opcode byte that is the data of a pending push
  and for one that a quoted word of 76 characters emits together with its length and its
  data: the word after it may then append any number of bytes.
\<close>

theorem pushdata_length_field_counterexample:
  "ParseScript example_GetOpName example_FIRST_UNDEFINED_OP_VALUE ''0x01 OP_PUSHDATA1 0x0000'' =
     Inr [1, 76, 0, 0]
   \<and> ParseScript example_GetOpName example_FIRST_UNDEFINED_OP_VALUE ''0x01 0x4c 0x0000'' =
     Inr [1, 76, 0, 0]
   \<and> ParseScript example_GetOpName example_FIRST_UNDEFINED_OP_VALUE
       (CHR 0x27 # ''aaaaaaaaaaaaaaaaaaaaaaaaaaaaaaaaaaaaaaaaaaaaaaaaaaaaaaaaaaaaaaaaaaaaaaaaaaaa'' @
        CHR 0x27 # '' 0x0000'') =
     Inr [76, 76, 97, 97, 97, 97, 97, 97, 97, 97, 97, 97, 97, 97, 97, 97, 97, 97, 97, 97,
          97, 97, 97, 97, 97, 97, 97, 97, 97, 97, 97, 97, 97, 97, 97, 97, 97, 97, 97, 97,
          97, 97, 97, 97, 97, 97, 97, 97, 97, 97, 97, 97, 97, 97, 97, 97, 97, 97, 97, 97,
          97, 97, 97, 97, 97, 97, 97, 97, 97, 97, 97, 97, 97, 97, 97, 97, 97, 97, 0, 0]"
  by (simp add: ParseScript_def eval_simps example_table_PUSHDATA1 word_bytes_def is_number_def
      is_hex_word_def is_quoted_def is_digit_def ends_with_single push_data_def push_prefix_def)

text \<open>
  C2, amended. Let no push be pending and let the word \<open>w1\<close> append the single opcode byte
  \<^verbatim>\<open>OP_PUSHDATA1\<close>, \<^verbatim>\<open>OP_PUSHDATA2\<close> or \<^verbatim>\<open>OP_PUSHDATA4\<close>, of field width
  \<open>k\<close> = 1, 2 or 4. Then both counters are \<open>k\<close>. The next word must append exactly \<open>k\<close>
  bytes, or the assembler fails with the error about the wrong number of pushed bytes. When
  it does, the unsigned little-endian value of these bytes is the push expected of the word
  after it, and the field width is back to 0: a third word with another number of bytes
  than this value, when the value is not 0, makes the assembler fail in the same way.
\<close>

theorem pushdata_length_field:
  assumes "split_compress is_separator s = pre @ w1 # w2 # ws"
      and "ParseWords (mapOpNames GetOpName FIRST) s pre initial_state = Inr st"
      and "next_push_size st = 0"
      and "w1 \<noteq> []" and "word_bytes (mapOpNames GetOpName FIRST) s w1 = Inr [op]"
      and "(op = OP_PUSHDATA1 \<and> k = 1) \<or> (op = OP_PUSHDATA2 \<and> k = 2) \<or>
           (op = OP_PUSHDATA4 \<and> k = 4)"
      and "w2 \<noteq> []" and "word_bytes (mapOpNames GetOpName FIRST) s w2 = Inr bs"
  shows "ParseWords (mapOpNames GetOpName FIRST) s (pre @ [w1]) initial_state =
           Inr \<lparr>result = result st @ [op], next_push_size = k, push_data_size = k\<rparr>
       \<and> (length bs \<noteq> k \<longrightarrow>
            ParseScript GetOpName FIRST s =
              Inl (runtime_error
                    (''Wrong number of bytes being pushed. Expected:'' @ lexical_cast k @
                     '' Pushed:'' @ lexical_cast (length bs))))
       \<and> (length bs = k \<longrightarrow>
            ParseWords (mapOpNames GetOpName FIRST) s (pre @ [w1, w2]) initial_state =
              Inr \<lparr>result = result st @ op # bs, next_push_size = le_value bs,
                   push_data_size = 0\<rparr>
          \<and> (\<forall>w3 ws3 bs3.
                ws = w3 # ws3 \<and> w3 \<noteq> [] \<and>
                word_bytes (mapOpNames GetOpName FIRST) s w3 = Inr bs3 \<and>
                le_value bs \<noteq> 0 \<and> length bs3 \<noteq> le_value bs
                \<longrightarrow> ParseScript GetOpName FIRST s =
                     Inl (runtime_error
                           (''Wrong number of bytes being pushed. Expected:'' @
                            lexical_cast (le_value bs) @
                            '' Pushed:'' @ lexical_cast (length bs3)))))"
proof -
  let ?tbl = "mapOpNames GetOpName FIRST"
  let ?st1 = "\<lparr>result = result st @ [op], next_push_size = k, push_data_size = k\<rparr>"
  let ?st2 = "\<lparr>result = result st @ op # bs, next_push_size = le_value bs,
               push_data_size = 0\<rparr>"
  have k: "k = 1 \<or> k = 2 \<or> k = 4"
    using assms(6) by auto
  have "process_word ?tbl s st w1 = Inr ?st1"
    using assms(3,5,6) by (rule process_word_pushdata)
  then have first: "ParseWords ?tbl s (pre @ [w1]) initial_state = Inr ?st1"
    by (simp add: ParseWords_snoc [OF assms(2,4)])
  have pw2: "process_word ?tbl s ?st1 w2 =
     (if length bs \<noteq> k then Inl (push_size_error k (length bs)) else Inr ?st2)"
    using process_word_length_field [OF assms(8) k] by simp
  have split2: "pre @ w1 # w2 # ws = (pre @ [w1]) @ w2 # ws" by simp
  have fail: "ParseScript GetOpName FIRST s = Inl (push_size_error k (length bs))"
    if "length bs \<noteq> k"
    using that pw2
    by (simp only: ParseScript_def Let_def assms(1) split2 ParseWords_snoc [OF first assms(7)])
       simp
  have split3: "pre @ [w1, w2] = (pre @ [w1]) @ w2 # []" by simp
  have good: "ParseWords ?tbl s (pre @ [w1, w2]) initial_state = Inr ?st2"
    if "length bs = k"
    using that pw2
    by (simp only: split3 ParseWords_snoc [OF first assms(7)]) simp
  have third: "ParseScript GetOpName FIRST s =
      Inl (push_size_error (le_value bs) (length bs3))"
    if len: "length bs = k"
      and h: "ws = w3 # ws3 \<and> w3 \<noteq> [] \<and> word_bytes ?tbl s w3 = Inr bs3 \<and>
              le_value bs \<noteq> 0 \<and> length bs3 \<noteq> le_value bs"
    for w3 ws3 bs3
  proof -
    from h have wb3: "word_bytes ?tbl s w3 = Inr bs3" and nz: "le_value bs \<noteq> 0"
      and w3: "w3 \<noteq> []" by simp_all
    have "process_word ?tbl s ?st2 w3 = Inl (push_size_error (le_value bs) (length bs3))"
      using process_word_push [OF wb3 _ nz, of ?st2] h by simp
    moreover have "pre @ w1 # w2 # ws = (pre @ [w1, w2]) @ w3 # ws3"
      using h by simp
    ultimately show ?thesis
      by (simp only: ParseScript_def Let_def assms(1) ParseWords_snoc [OF good [OF len] w3])
         simp
  qed
  note fail' = fail [unfolded push_size_error_def]
    and third' = third [unfolded push_size_error_def]
  from first fail' good third' show ?thesis
    by blast
qed

theorem pushdata_length_field_witness:
  "ParseScript example_GetOpName example_FIRST_UNDEFINED_OP_VALUE ''0x4d 0x05'' =
     Inl (runtime_error ''Wrong number of bytes being pushed. Expected:2 Pushed:1'')
   \<and> ParseWords (mapOpNames example_GetOpName example_FIRST_UNDEFINED_OP_VALUE)
        ''0x4d 0x0201 0x00'' [''0x4d'', ''0x0201''] initial_state =
     Inr \<lparr>result = [77, 2, 1], next_push_size = 258, push_data_size = 0\<rparr>
   \<and> ParseScript example_GetOpName example_FIRST_UNDEFINED_OP_VALUE ''0x4d 0x0201 0x00'' =
     Inl (runtime_error ''Wrong number of bytes being pushed. Expected:258 Pushed:1'')"
  using pushdata_length_field [of "''0x4d 0x05''" "[]" "''0x4d''" "''0x05''" "[]"
      example_GetOpName example_FIRST_UNDEFINED_OP_VALUE initial_state 77 2 "[5]"]
    pushdata_length_field [of "''0x4d 0x0201 0x00''" "[]" "''0x4d''" "''0x0201''" "[''0x00'']"
      example_GetOpName example_FIRST_UNDEFINED_OP_VALUE initial_state 77 2 "[2, 1]"]
  by (simp add: eval_simps)

text \<open>
  C4, as stated, fails where it says that no expectation comes from the byte when a push
  was pending or the word appends more than one byte: the length field of a \<^verbatim>\<open>PUSHDATA\<close>
  opcode is such a word, and its value is the push expected next.
\<close>

theorem single_byte_sets_push_size_counterexample:
  "ParseWords (mapOpNames example_GetOpName example_FIRST_UNDEFINED_OP_VALUE)
     ''0x4c 0x4c 0x00'' [''0x4c'', ''0x4c''] initial_state =
     Inr \<lparr>result = [76, 76], next_push_size = 76, push_data_size = 0\<rparr>
   \<and> ParseScript example_GetOpName example_FIRST_UNDEFINED_OP_VALUE ''0x4c 0x4c 0x00'' =
     Inl (runtime_error ''Wrong number of bytes being pushed. Expected:76 Pushed:1'')
   \<and> ParseWords (mapOpNames example_GetOpName example_FIRST_UNDEFINED_OP_VALUE)
     ''0x4d 0x0300 0x00'' [''0x4d'', ''0x0300''] initial_state =
     Inr \<lparr>result = [77, 3, 0], next_push_size = 3, push_data_size = 0\<rparr>
   \<and> ParseScript example_GetOpName example_FIRST_UNDEFINED_OP_VALUE ''0x4d 0x0300 0x00'' =
     Inl (runtime_error ''Wrong number of bytes being pushed. Expected:3 Pushed:1'')"
  by (simp add: ParseScript_def eval_simps)

text \<open>
  C4, amended. Let no push be pending and let the word append exactly one byte, by
  whichever rule (the raw hex word \<^verbatim>\<open>0x05\<close> is one). When the byte is below
  \<^verbatim>\<open>OP_PUSHDATA1\<close>, its value becomes the pending push, so that, when it is not 0, a
  next word with another number of bytes makes the assembler fail. When a push was pending
  or the word appends another number of bytes than one, the byte is not looked at as an
  opcode: the pending push is then 0, unless the word was the length field of a
  \<^verbatim>\<open>PUSHDATA\<close> opcode, whose value becomes the pending push.
\<close>

theorem single_byte_sets_push_size:
  assumes "split_compress is_separator s = pre @ w # ws"
      and "ParseWords (mapOpNames GetOpName FIRST) s pre initial_state = Inr st"
      and "w \<noteq> []"
      and "word_bytes (mapOpNames GetOpName FIRST) s w = Inr bs"
  shows "(next_push_size st = 0 \<and> bs = [b] \<and> b < OP_PUSHDATA1 \<longrightarrow>
            ParseWords (mapOpNames GetOpName FIRST) s (pre @ [w]) initial_state =
              Inr \<lparr>result = result st @ [b], next_push_size = unat b, push_data_size = 0\<rparr>
          \<and> (\<forall>w2 ws2 bs2.
                ws = w2 # ws2 \<and> w2 \<noteq> [] \<and>
                word_bytes (mapOpNames GetOpName FIRST) s w2 = Inr bs2 \<and>
                unat b \<noteq> 0 \<and> length bs2 \<noteq> unat b
                \<longrightarrow> ParseScript GetOpName FIRST s =
                     Inl (push_size_error (unat b) (length bs2))))
       \<and> (next_push_size st \<noteq> 0 \<or> length bs \<noteq> 1 \<longrightarrow>
            (\<forall>st'. process_word (mapOpNames GetOpName FIRST) s st w = Inr st' \<longrightarrow>
               st' = \<lparr>result = result st @ bs,
                       next_push_size =
                         (if next_push_size st \<noteq> 0 \<and> push_data_size st \<noteq> 0
                          then le_value bs else 0),
                       push_data_size = 0\<rparr>))"
proof (intro conjI impI allI)
  let ?tbl = "mapOpNames GetOpName FIRST"
  let ?st1 = "\<lparr>result = result st @ [b], next_push_size = unat b, push_data_size = 0\<rparr>"
  have ok: "push_state_ok st"
    using assms(2) by (rule reached_state_ok)
  {
    assume h: "next_push_size st = 0 \<and> bs = [b] \<and> b < OP_PUSHDATA1"
    with ok have pds: "push_data_size st = 0" by (simp add: push_state_ok_no_push)
    from h have "process_word ?tbl s st w = Inr ?st1"
      using process_word_no_push [OF assms(4), of st] pds
      by (simp add: note_opcode_direct)
    then show first: "ParseWords ?tbl s (pre @ [w]) initial_state = Inr ?st1"
      by (simp add: ParseWords_snoc [OF assms(2,3)])
    fix w2 ws2 bs2
    assume n: "ws = w2 # ws2 \<and> w2 \<noteq> [] \<and> word_bytes ?tbl s w2 = Inr bs2 \<and>
               unat b \<noteq> 0 \<and> length bs2 \<noteq> unat b"
    then have wb2: "word_bytes ?tbl s w2 = Inr bs2" and nz: "unat b \<noteq> 0"
      and w2: "w2 \<noteq> []" by simp_all
    have "process_word ?tbl s ?st1 w2 = Inl (push_size_error (unat b) (length bs2))"
      using process_word_push [OF wb2 _ nz, of ?st1] n by simp
    moreover have "pre @ w # ws = (pre @ [w]) @ w2 # ws2"
      using n by simp
    ultimately show "ParseScript GetOpName FIRST s =
        Inl (push_size_error (unat b) (length bs2))"
      by (simp only: ParseScript_def Let_def assms(1) ParseWords_snoc [OF first w2]) simp
  next
    fix st'
    assume c: "next_push_size st \<noteq> 0 \<or> length bs \<noteq> 1"
      and pw: "process_word ?tbl s st w = Inr st'"
    show "st' = \<lparr>result = result st @ bs,
                 next_push_size =
                   (if next_push_size st \<noteq> 0 \<and> push_data_size st \<noteq> 0
                    then le_value bs else 0),
                 push_data_size = 0\<rparr>"
    proof (cases "next_push_size st = 0")
      case True
      with ok have "push_data_size st = 0" by (simp add: push_state_ok_no_push)
      with True c pw show ?thesis
        using process_word_no_push [OF assms(4) True] by simp
    next
      case False
      with pw show ?thesis
        using process_word_push_ok [OF assms(4) refl False ok]
        by (auto split: if_splits)
    qed
  }
qed

theorem single_byte_sets_push_size_witness:
  "ParseWords (mapOpNames example_GetOpName example_FIRST_UNDEFINED_OP_VALUE)
      ''0x05 0x0102'' [''0x05''] initial_state =
     Inr \<lparr>result = [5], next_push_size = 5, push_data_size = 0\<rparr>
   \<and> ParseScript example_GetOpName example_FIRST_UNDEFINED_OP_VALUE ''0x05 0x0102'' =
     Inl (runtime_error ''Wrong number of bytes being pushed. Expected:5 Pushed:2'')
   \<and> process_word (mapOpNames example_GetOpName example_FIRST_UNDEFINED_OP_VALUE)
        ''0x0503'' initial_state ''0x0503'' =
     Inr \<lparr>result = [5, 3], next_push_size = 0, push_data_size = 0\<rparr>"
  using single_byte_sets_push_size [of "''0x05 0x0102''" "[]" "''0x05''" "[''0x0102'']"
      example_GetOpName example_FIRST_UNDEFINED_OP_VALUE initial_state "[5]" 5]
    single_byte_sets_push_size [of "''0x0503''" "[]" "''0x0503''" "[]"
      example_GetOpName example_FIRST_UNDEFINED_OP_VALUE initial_state "[5, 3]" 0]
  by (simp add: eval_simps)

text \<open>
  C5, amended. \<^verbatim>\<open>ParseScript\<close> fails with one of three errors. The error for a word that
  no rule accepts has the text \<^verbatim>\<open>Error parsing script: \<close> followed by the input as
  \<^verbatim>\<open>what()\<close> gives it, that is up to its first NUL character; this is the whole input
  when it holds no NUL. The error about malformed hex is one fixed message, the same for
  every input. The error about the wrong number of pushed bytes has the expected number,
  which is not 0, and the actual number, which differs from it.
\<close>

theorem errors_of_ParseScript:
  assumes "ParseScript GetOpName FIRST s = Inl e"
  shows "(e = runtime_error (''Error parsing script: '' @ c_str s)
        \<or> e = runtime_error
              ''Hex numbers expected to be formatted in full-byte chunks (ex: 0x00 instead of 0x0)''
        \<or> (\<exists>n m. n \<noteq> 0 \<and> m \<noteq> n \<and>
              e = runtime_error
                    (''Wrong number of bytes being pushed. Expected:'' @ lexical_cast n @
                     '' Pushed:'' @ lexical_cast m)))
       \<and> (CHR 0x00 \<notin> set s \<longrightarrow> c_str s = s)"
proof -
  from assms have
    "ParseWords (mapOpNames GetOpName FIRST) s (split_compress is_separator s) initial_state = Inl e"
    by (simp add: ParseScript_def split: sum.splits)
  with push_state_ok_initial have
    "e = hex_error \<or> e = parse_error s \<or>
     (\<exists>n m. n \<noteq> 0 \<and> m \<noteq> n \<and> e = push_size_error n m)"
    by (rule ParseWords_error)
  then have "e = runtime_error (''Error parsing script: '' @ c_str s)
        \<or> e = runtime_error
              ''Hex numbers expected to be formatted in full-byte chunks (ex: 0x00 instead of 0x0)''
        \<or> (\<exists>n m. n \<noteq> 0 \<and> m \<noteq> n \<and>
              e = runtime_error
                    (''Wrong number of bytes being pushed. Expected:'' @ lexical_cast n @
                     '' Pushed:'' @ lexical_cast m))"
    unfolding hex_error_def parse_error_def push_size_error_def c_str_parse_message by auto
  then show ?thesis
    by (simp add: c_str_no_NUL)
qed

theorem errors_of_ParseScript_witness:
  "ParseScript example_GetOpName example_FIRST_UNDEFINED_OP_VALUE ''0x01 0x0203'' =
     Inl (runtime_error ''Wrong number of bytes being pushed. Expected:1 Pushed:2'')
   \<and> (\<exists>n m. n \<noteq> 0 \<and> m \<noteq> n \<and>
         ''Wrong number of bytes being pushed. Expected:1 Pushed:2'' =
         ''Wrong number of bytes being pushed. Expected:'' @ lexical_cast n @
         '' Pushed:'' @ lexical_cast m)
   \<and> ParseScript example_GetOpName example_FIRST_UNDEFINED_OP_VALUE ''bogus_token_xyz'' =
     Inl (runtime_error ''Error parsing script: bogus_token_xyz'')
   \<and> c_str ''bogus_token_xyz'' = ''bogus_token_xyz''
   \<and> ParseScript example_GetOpName example_FIRST_UNDEFINED_OP_VALUE
       [CHR ''a'', CHR 0x00, CHR ''b''] =
     Inl (runtime_error ''Error parsing script: a'')
   \<and> c_str [CHR ''a'', CHR 0x00, CHR ''b''] = ''a''"
proof -
  let ?G = example_GetOpName and ?F = example_FIRST_UNDEFINED_OP_VALUE
  have run1: "ParseScript ?G ?F ''0x01 0x0203'' =
     Inl (runtime_error ''Wrong number of bytes being pushed. Expected:1 Pushed:2'')"
    by (simp add: ParseScript_def eval_simps)
  have miss: "mapOpNames ?G ?F ''bogus_token_xyz'' = None"
    "mapOpNames ?G ?F [CHR ''a'', CHR 0x00, CHR ''b''] = None"
    by (rule example_table_miss, simp)+
  have run2: "ParseScript ?G ?F ''bogus_token_xyz'' =
     Inl (runtime_error ''Error parsing script: bogus_token_xyz'')"
    by (simp add: ParseScript_single_word is_separator_def word_bytes_def miss is_number_def
        is_hex_word_def is_quoted_def is_digit_def parse_error_def c_str_def)
  have run3: "ParseScript ?G ?F [CHR ''a'', CHR 0x00, CHR ''b''] =
     Inl (runtime_error ''Error parsing script: a'')"
    by (simp add: ParseScript_single_word is_separator_def word_bytes_def miss is_number_def
        is_hex_word_def is_quoted_def is_digit_def parse_error_def c_str_def)
  from errors_of_ParseScript [OF run1] errors_of_ParseScript [OF run2]
    errors_of_ParseScript [OF run3] run1 run2 run3
  show ?thesis
    by (simp add: c_str_def)
qed

text \<open>
  C5, as stated, fails: the error about malformed hex is one fixed message, which contains
  neither the word \<^verbatim>\<open>0x123\<close> nor the input, and the error about the wrong number of pushed
  bytes contains the two numbers and not the input. The error for a word that no rule
  accepts loses the input from its first NUL character on.
\<close>

theorem errors_without_input_counterexample:
  "ParseScript example_GetOpName example_FIRST_UNDEFINED_OP_VALUE ''0x123'' =
     Inl (runtime_error
      ''Hex numbers expected to be formatted in full-byte chunks (ex: 0x00 instead of 0x0)'')
   \<and> \<not> sublist ''0x123''
      ''Hex numbers expected to be formatted in full-byte chunks (ex: 0x00 instead of 0x0)''
   \<and> ParseScript example_GetOpName example_FIRST_UNDEFINED_OP_VALUE ''0x01 0x0203'' =
     Inl (runtime_error ''Wrong number of bytes being pushed. Expected:1 Pushed:2'')
   \<and> \<not> sublist ''0x01 0x0203'' ''Wrong number of bytes being pushed. Expected:1 Pushed:2''
   \<and> ParseScript example_GetOpName example_FIRST_UNDEFINED_OP_VALUE
       [CHR ''a'', CHR 0x00, CHR ''b''] =
     Inl (runtime_error ''Error parsing script: a'')
   \<and> \<not> sublist [CHR ''a'', CHR 0x00, CHR ''b''] ''Error parsing script: a''"
proof -
  have "mapOpNames example_GetOpName example_FIRST_UNDEFINED_OP_VALUE
          [CHR ''a'', CHR 0x00, CHR ''b''] = None"
    by (rule example_table_miss) simp
  then have "ParseScript example_GetOpName example_FIRST_UNDEFINED_OP_VALUE
       [CHR ''a'', CHR 0x00, CHR ''b''] =
     Inl (runtime_error ''Error parsing script: a'')"
    by (simp add: ParseScript_single_word is_separator_def word_bytes_def is_number_def
        is_hex_word_def is_quoted_def is_digit_def parse_error_def c_str_def)
  then show ?thesis
    by (simp add: ParseScript_def eval_simps sublist_Cons_right)
qed







section \<open>The claim about the hex decoders\<close>

lemma DecodeHexTx_True_iff:
  "fst (DecodeHexTx unserialize str) \<longleftrightarrow>
     IsHex str \<and> (\<exists>tx. unserialize (ParseHex str) = Some (tx, []))"
  by (auto simp: DecodeHexTx_def Let_def split: option.splits)

lemma DecodeHexBlk_True_iff:
  "fst (DecodeHexBlk unserialize str) \<longleftrightarrow>
     IsHex str \<and> unserialize (ParseHex str) \<noteq> None"
  by (auto simp: DecodeHexBlk_def Let_def split: option.splits)

text \<open>
  C9. \<^verbatim>\<open>DecodeHexTx\<close> rejects a stream that the deserializer has not consumed to its end;
  \<^verbatim>\<open>DecodeHexBlk\<close> has no such test and accepts it. With a deserializer that reads one
  byte, the two bytes \<^verbatim>\<open>0102\<close> leave one byte behind: the transaction decoder returns
  false and the block decoder returns true.
\<close>

theorem DecodeHexBlk_accepts_trailing_bytes:
  "DecodeHexBlk example_unserialize ''0102'' = (True, Some 1)
   \<and> DecodeHexTx example_unserialize ''0102'' = (False, Some 1)
   \<and> example_unserialize (ParseHex ''0102'') = Some (1, [2])"
  by (simp add: DecodeHexBlk_def DecodeHexTx_def example_unserialize_def IsHex_def HexDigit_def)

end
